theory Spec2Isabelle
  imports Complex_Main
begin

section \<open>Click speed tester: the session controller of App.tsx\<close>

text \<open>
  The component \<^verbatim>\<open>ClickSpeedTester\<close> keeps three pieces of React state
  (\<^verbatim>\<open>running\<close>, \<^verbatim>\<open>clicks\<close>, \<^verbatim>\<open>remaining\<close>) and two refs
  (\<^verbatim>\<open>timerRef\<close>, \<^verbatim>\<open>endAtRef\<close>). Its handlers \<^verbatim>\<open>start\<close>, \<^verbatim>\<open>reset\<close>,
  \<^verbatim>\<open>handleClick\<close> and the interval callback armed by \<^verbatim>\<open>start\<close> are the only
  writers. The theme state and the styles play no part in the logic and are left out.

  Modelling decisions:
  \<^item> JavaScript runs one handler at a time; each handler is one transition of the record
    below. The fields \<^verbatim>\<open>running\<close>, \<^verbatim>\<open>clicks\<close> and \<^verbatim>\<open>remaining\<close> hold the React state
    with every queued update applied, in the order the setters were called.
  \<^item> A handler created by a render sees the constants of that render, not the state.
    \<^verbatim>\<open>handleClick\<close> reads the constant \<^verbatim>\<open>running\<close> (line 79); it is the only constant
    of a render that a handler reads, and the field \<open>rendered\<close> holds it. A render is an
    event of its own, which may or may not come between two other events. The refs are
    read and written in place.
  \<^item> \<^verbatim>\<open>Date.now()\<close> is an input of the transition that reads it (integer milliseconds).
  \<^item> The JavaScript runtime's table of live intervals is part of the record:
    \<^verbatim>\<open>setInterval\<close> adds a fresh handle, \<^verbatim>\<open>clearInterval\<close> removes one, and the
    callback of a handle runs only while the handle is in the table. Every interval of
    this component carries the same callback, so the table stores handles only.
  \<^item> \<^verbatim>\<open>timerRef.current\<close> has type \<^verbatim>\<open>NodeJS.Timer | null\<close>: \<open>None\<close> is \<^verbatim>\<open>null\<close>, and
    the test \<^verbatim>\<open>if (timerRef.current)\<close> succeeds exactly on \<open>Some h\<close> (handles are counted
    from 1, so a numeric handle is truthy as well).
  \<^item> Numbers are exact: the click counter is a natural number, times are integers and
    the rate is a real number. The rounding of doubles and the text produced by
    \<^verbatim>\<open>toFixed(2)\<close> are outside the model.
\<close>

definition DURATION_MS :: int where
  "DURATION_MS = 5000"

type_synonym timer = nat

record tester =
  running :: bool
  clicks :: nat
  remaining :: int
  timerRef :: "timer option"
  endAtRef :: int
  intervals :: "timer list"
  nextTimer :: timer
  rendered :: bool

text \<open>
  The state after the first render: lines 33 to 38, no interval armed, and the render
  has seen \<^verbatim>\<open>running\<close> false.
\<close>

definition initial :: tester where
  "initial = \<lparr> running = False, clicks = 0, remaining = DURATION_MS,
               timerRef = None, endAtRef = 0, intervals = [], nextTimer = 1,
               rendered = False \<rparr>"

subsection \<open>The runtime's interval table\<close>

definition setInterval :: "tester \<Rightarrow> timer \<times> tester" where
  "setInterval s =
     (nextTimer s,
      s\<lparr> intervals := intervals s @ [nextTimer s], nextTimer := Suc (nextTimer s) \<rparr>)"

definition clearInterval :: "timer \<Rightarrow> tester \<Rightarrow> tester" where
  "clearInterval h s = s\<lparr> intervals := removeAll h (intervals s) \<rparr>"

subsection \<open>The handlers\<close>

text \<open>\<^verbatim>\<open>start\<close>, lines 49 to 68; \<open>now\<close> is the value of \<^verbatim>\<open>Date.now()\<close> at line 55.\<close>

definition start :: "int \<Rightarrow> tester \<Rightarrow> tester" where
  "start now s =
     (let s1 = (case timerRef s of Some h \<Rightarrow> clearInterval h s | None \<Rightarrow> s);
          s2 = s1\<lparr> clicks := 0 \<rparr>;
          s3 = s2\<lparr> remaining := DURATION_MS \<rparr>;
          s4 = s3\<lparr> running := True \<rparr>;
          s5 = s4\<lparr> endAtRef := now + DURATION_MS \<rparr>
      in case setInterval s5 of (h, s6) \<Rightarrow> s6\<lparr> timerRef := Some h \<rparr>)"

text \<open>
  The interval callback, lines 57 to 67; \<open>now\<close> is the value of \<^verbatim>\<open>Date.now()\<close> at
  line 58. It reads both refs at the time it runs.
\<close>

definition tick :: "int \<Rightarrow> tester \<Rightarrow> tester" where
  "tick now s =
     (let left = max 0 (endAtRef s - now);
          s1 = s\<lparr> remaining := left \<rparr>
      in if left \<le> 0 then
           (let s2 = s1\<lparr> running := False \<rparr>
            in case timerRef s2 of
                 Some h \<Rightarrow> (clearInterval h s2)\<lparr> timerRef := None \<rparr>
               | None \<Rightarrow> s2)
         else s1)"

text \<open>\<^verbatim>\<open>reset\<close>, lines 70 to 76. It does not assign \<^verbatim>\<open>endAtRef\<close>.\<close>

definition reset :: "tester \<Rightarrow> tester" where
  "reset s =
     (let s1 = (case timerRef s of Some h \<Rightarrow> clearInterval h s | None \<Rightarrow> s);
          s2 = s1\<lparr> timerRef := None \<rparr>;
          s3 = s2\<lparr> running := False \<rparr>;
          s4 = s3\<lparr> clicks := 0 \<rparr>
      in s4\<lparr> remaining := DURATION_MS \<rparr>)"

text \<open>
  \<^verbatim>\<open>handleClick\<close>, lines 78 to 81. The test of line 79 is on the \<^verbatim>\<open>running\<close> of the
  render that created the handler; the update of line 80 is applied to the state.
\<close>

definition handleClick :: "tester \<Rightarrow> tester" where
  "handleClick s = (if \<not> rendered s then s else s\<lparr> clicks := clicks s + 1 \<rparr>)"

text \<open>
  A render of the component: \<^verbatim>\<open>useState\<close> at line 33 hands the current \<^verbatim>\<open>running\<close> to
  the handlers created at lines 49 to 81.
\<close>

definition render :: "tester \<Rightarrow> tester" where
  "render s = s\<lparr> rendered := running s \<rparr>"

subsection \<open>Derived values of the render\<close>

text \<open>
  What a render of the state shows: line 84 before formatting, and the condition of
  line 145 under which the summary line (with the rate) is rendered.
\<close>

definition cps :: "tester \<Rightarrow> real" where
  "cps s = real (clicks s) / (real_of_int DURATION_MS / 1000)"

definition finished :: "tester \<Rightarrow> bool" where
  "finished s = (\<not> running s \<and> remaining s = 0)"

definition summary :: "tester \<Rightarrow> (nat \<times> real) option" where
  "summary s = (if \<not> running s \<and> remaining s = 0 then Some (clicks s, cps s) else None)"

text \<open>
  The phase is not stored. It is read off the stored pair as the render does: the start
  button and the click area test \<^verbatim>\<open>running\<close>, the summary tests
  \<^verbatim>\<open>!running && remaining === 0\<close>.
\<close>

datatype phase = Idle | Running | Finished

definition phase :: "tester \<Rightarrow> phase" where
  "phase s = (if running s then Running else if remaining s = 0 then Finished else Idle)"

subsection \<open>Events and executions\<close>

text \<open>
  An event is a press of the start button, a press of the click area, a press of the
  reset button, the period of interval \<open>h\<close> elapsing, or a render; the clock reading
  comes with the events whose handler reads the clock. The callback of \<open>h\<close> runs only
  if \<open>h\<close> is still in the runtime's table. A press reaches its handler whatever the
  render shows; the handler's own test decides.
\<close>

datatype event = Start int | Tap | Reset | Tick timer int | Render

fun step :: "event \<Rightarrow> tester \<Rightarrow> tester" where
  "step (Start now) s = start now s"
| "step Tap s = handleClick s"
| "step Reset s = reset s"
| "step (Tick h now) s = (if h \<in> set (intervals s) then tick now s else s)"
| "step Render s = render s"

fun run :: "event list \<Rightarrow> tester \<Rightarrow> tester" where
  "run [] s = s"
| "run (e # es) s = run es (step e s)"

text \<open>
  The assumption on the clock: a reading taken by a tick is not earlier than the reading
  taken by the \<^verbatim>\<open>start\<close> that opened the current session. The first argument is that
  reading, \<open>None\<close> before the first start.
\<close>

fun clock_ok :: "int option \<Rightarrow> event list \<Rightarrow> bool" where
  "clock_ok t0 [] = True"
| "clock_ok t0 (Start now # es) = clock_ok (Some now) es"
| "clock_ok t0 (Tick h now # es) =
     ((case t0 of None \<Rightarrow> True | Some t \<Rightarrow> t \<le> now) \<and> clock_ok t0 es)"
| "clock_ok t0 (Tap # es) = clock_ok t0 es"
| "clock_ok t0 (Reset # es) = clock_ok t0 es"
| "clock_ok t0 (Render # es) = clock_ok t0 es"


section \<open>Invariants of reachable states\<close>

text \<open>
  The table of live intervals holds exactly the handle in \<^verbatim>\<open>timerRef\<close>; a handle is
  stored exactly while \<^verbatim>\<open>running\<close>; handles in use are older than the next one to be
  handed out; and a state that is not running shows the full or the empty countdown.
\<close>

definition timer_inv :: "tester \<Rightarrow> bool" where
  "timer_inv s =
     (intervals s = (case timerRef s of None \<Rightarrow> [] | Some h \<Rightarrow> [h]) \<and>
      (running s = (timerRef s \<noteq> None)) \<and>
      (case timerRef s of None \<Rightarrow> True | Some h \<Rightarrow> h < nextTimer s) \<and>
      (running s \<or> remaining s = 0 \<or> remaining s = DURATION_MS))"

text \<open>
  Within a session the deadline in \<^verbatim>\<open>endAtRef\<close> is the session's start reading plus the
  duration, and the displayed countdown lies between zero and the duration.
\<close>

definition session_inv :: "int option \<Rightarrow> tester \<Rightarrow> bool" where
  "session_inv t0 s =
     (timer_inv s \<and> 0 \<le> remaining s \<and> remaining s \<le> DURATION_MS \<and>
      (running s \<longrightarrow> t0 = Some (endAtRef s - DURATION_MS)))"

lemmas eval_defs = initial_def start_def tick_def reset_def handleClick_def setInterval_def
  clearInterval_def DURATION_MS_def phase_def finished_def summary_def cps_def render_def

subsection \<open>Field by field: what each handler writes\<close>

lemma start_fields:
  "running (start now s)" "clicks (start now s) = 0" "remaining (start now s) = DURATION_MS"
  "endAtRef (start now s) = now + DURATION_MS" "timerRef (start now s) = Some (nextTimer s)"
  "rendered (start now s) = rendered s"
  by (simp_all add: start_def setInterval_def clearInterval_def split: option.splits)

lemma reset_fields:
  "\<not> running (reset s)" "clicks (reset s) = 0" "remaining (reset s) = DURATION_MS"
  "endAtRef (reset s) = endAtRef s" "timerRef (reset s) = None" "nextTimer (reset s) = nextTimer s"
  "rendered (reset s) = rendered s"
  by (simp_all add: reset_def clearInterval_def split: option.splits)

lemma tick_fields:
  "remaining (tick now s) = max 0 (endAtRef s - now)"
  "clicks (tick now s) = clicks s" "endAtRef (tick now s) = endAtRef s"
  "running (tick now s) = (running s \<and> now < endAtRef s)"
  "rendered (tick now s) = rendered s"
  by (auto simp add: tick_def clearInterval_def Let_def split: option.splits)

lemma render_fields:
  "rendered (render s) = running s" "running (render s) = running s"
  "clicks (render s) = clicks s" "remaining (render s) = remaining s"
  "endAtRef (render s) = endAtRef s" "timerRef (render s) = timerRef s"
  "intervals (render s) = intervals s" "nextTimer (render s) = nextTimer s"
  by (simp_all add: render_def)

lemma handleClick_funpow_shown:
  "rendered s \<Longrightarrow>
     rendered ((handleClick ^^ n) s) \<and> clicks ((handleClick ^^ n) s) = clicks s + n"
  by (induction n) (simp_all add: handleClick_def)

lemma handleClick_funpow_hidden: "\<not> rendered s \<Longrightarrow> (handleClick ^^ n) s = s"
  by (induction n) (simp_all add: handleClick_def)



subsection \<open>The timer invariant is preserved\<close>

lemma timer_inv_initial: "timer_inv initial"
  by (simp add: timer_inv_def initial_def)

lemma timer_inv_start: "timer_inv s \<Longrightarrow> timer_inv (start now s)"
  by (cases "timerRef s")
     (simp_all add: timer_inv_def start_def setInterval_def clearInterval_def)

lemma timer_inv_reset: "timer_inv s \<Longrightarrow> timer_inv (reset s)"
  by (cases "timerRef s")
     (simp_all add: timer_inv_def reset_def clearInterval_def)

lemma timer_inv_handleClick: "timer_inv s \<Longrightarrow> timer_inv (handleClick s)"
  by (auto simp add: timer_inv_def handleClick_def split: option.splits)

lemma timer_inv_tick: "timer_inv s \<Longrightarrow> running s \<Longrightarrow> timer_inv (tick now s)"
  by (cases "timerRef s")
     (auto simp add: timer_inv_def tick_def clearInterval_def Let_def max_def)

lemma timer_inv_render: "timer_inv s \<Longrightarrow> timer_inv (render s)"
  by (auto simp add: timer_inv_def render_fields split: option.splits)

lemma timer_inv_live: "timer_inv s \<Longrightarrow> h \<in> set (intervals s) \<Longrightarrow> running s"
  by (cases "timerRef s") (simp_all add: timer_inv_def)

lemma timer_inv_step: "timer_inv s \<Longrightarrow> timer_inv (step e s)"
  by (cases e)
     (simp_all add: timer_inv_start timer_inv_reset timer_inv_handleClick
        timer_inv_tick timer_inv_live timer_inv_render)

lemma timer_inv_run: "timer_inv s \<Longrightarrow> timer_inv (run es s)"
  by (induction es arbitrary: s) (simp_all add: timer_inv_step)

lemma timer_inv_reachable: "timer_inv (run es initial)"
  by (rule timer_inv_run [OF timer_inv_initial])


subsection \<open>The session invariant is preserved while the clock does not run backwards\<close>

lemma session_inv_initial: "session_inv None initial"
  by (simp add: session_inv_def timer_inv_initial) (simp add: initial_def DURATION_MS_def)

lemma session_inv_start: "session_inv t0 s \<Longrightarrow> session_inv (Some now) (start now s)"
  by (simp add: session_inv_def timer_inv_start start_fields)

lemma session_inv_reset: "session_inv t0 s \<Longrightarrow> session_inv t0 (reset s)"
  by (simp add: session_inv_def timer_inv_reset reset_fields)

lemma session_inv_handleClick: "session_inv t0 s \<Longrightarrow> session_inv t0 (handleClick s)"
  unfolding session_inv_def
  by (simp add: timer_inv_handleClick) (simp add: handleClick_def)

lemma session_inv_render: "session_inv t0 s \<Longrightarrow> session_inv t0 (render s)"
  by (simp add: session_inv_def timer_inv_render render_fields)

lemma session_inv_tick:
  "session_inv (Some t) s \<Longrightarrow> running s \<Longrightarrow> t \<le> now \<Longrightarrow> session_inv (Some t) (tick now s)"
  unfolding session_inv_def
  by (simp add: timer_inv_tick tick_fields)

lemma session_inv_live: "session_inv t0 s \<Longrightarrow> h \<in> set (intervals s) \<Longrightarrow> running s \<and> t0 \<noteq> None"
  by (auto simp add: session_inv_def dest: timer_inv_live)

lemma session_inv_run:
  "session_inv t0 s \<Longrightarrow> clock_ok t0 es \<Longrightarrow> \<exists>t1. session_inv t1 (run es s)"
proof (induction es arbitrary: t0 s)
  case Nil
  then show ?case by auto
next
  case (Cons e es)
  show ?case
  proof (cases e)
    case (Start now)
    with Cons.prems have "session_inv (Some now) (step e s)" "clock_ok (Some now) es"
      by (simp_all add: session_inv_start)
    then show ?thesis using Cons.IH by simp
  next
    case Tap
    with Cons.prems have "session_inv t0 (step e s)" "clock_ok t0 es"
      by (simp_all add: session_inv_handleClick)
    then show ?thesis using Cons.IH by simp
  next
    case Reset
    with Cons.prems have "session_inv t0 (step e s)" "clock_ok t0 es"
      by (simp_all add: session_inv_reset)
    then show ?thesis using Cons.IH by simp
  next
    case (Tick h now)
    have ok: "clock_ok t0 es" using Cons.prems Tick by simp
    have "session_inv t0 (step e s)"
    proof (cases "h \<in> set (intervals s)")
      case False
      then show ?thesis using Cons.prems Tick by simp
    next
      case True
      with Cons.prems have live: "running s" "t0 \<noteq> None"
        using session_inv_live by blast+
      then obtain t where t: "t0 = Some t" by auto
      with Cons.prems Tick have "t \<le> now" by simp
      then show ?thesis using True Tick t live Cons.prems by (simp add: session_inv_tick)
    qed
    then show ?thesis using ok Cons.IH by simp
  next
    case Render
    with Cons.prems have "session_inv t0 (step e s)" "clock_ok t0 es"
      by (simp_all add: session_inv_render)
    then show ?thesis using Cons.IH by simp
  qed
qed


section \<open>The countdown stays within the configured duration\<close>

text \<open>
  Claim C1. Along every sequence of events (start, tap, reset, tick) from the initial
  state in which no tick reads the clock earlier than the start of its session did, the
  displayed countdown \<^verbatim>\<open>remaining\<close> is at least 0 and at most \<^verbatim>\<open>DURATION_MS\<close> (5000) in
  the state reached.
\<close>

theorem remaining_within_duration:
  "clock_ok None es \<Longrightarrow>
     0 \<le> remaining (run es initial) \<and> remaining (run es initial) \<le> DURATION_MS"
  using session_inv_run [OF session_inv_initial] by (auto simp add: session_inv_def)

theorem remaining_within_duration_witness:
  "clock_ok None [Start 1000, Render, Tap, Tick 1 3000, Tap, Tick 1 7000, Tap] \<and>
   remaining (run [Start 1000, Render, Tap, Tick 1 3000] initial) = 3000 \<and>
   0 \<le> remaining (run [Start 1000, Render, Tap, Tick 1 3000, Tap, Tick 1 7000, Tap] initial) \<and>
   remaining (run [Start 1000, Render, Tap, Tick 1 3000, Tap, Tick 1 7000, Tap] initial)
     \<le> DURATION_MS"
  using remaining_within_duration
    [of "[Start 1000, Render, Tap, Tick 1 3000, Tap, Tick 1 7000, Tap]"]
  by (simp add: eval_defs)

text \<open>
  The assumption on the clock is needed: a tick that reads the clock one second before
  the start of its session displays six seconds.
\<close>

lemma clock_backwards_breaks_bound:
  "remaining (run [Start 1000, Tick 1 0] initial) = 6000"
  by (simp add: initial_def start_def tick_def setInterval_def clearInterval_def DURATION_MS_def)



section \<open>Starting a session\<close>

text \<open>
  Claim C2. From any state, whatever its phase, \<^verbatim>\<open>start\<close> leaves the click counter at 0,
  the countdown at \<^verbatim>\<open>DURATION_MS\<close>, the deadline at the clock reading plus \<^verbatim>\<open>DURATION_MS\<close>
  and the phase Running. Clicks of an earlier session do not carry over: \<open>n\<close> taps after
  the render that follows the start give a counter of exactly \<open>n\<close>, and \<open>n\<close> taps before
  that render give \<open>n\<close> or 0, as the render before the start showed running or not.
\<close>

theorem start_opens_fresh_session:
  "clicks (start now s) = 0 \<and> remaining (start now s) = DURATION_MS \<and>
   endAtRef (start now s) = now + DURATION_MS \<and> running (start now s) \<and>
   phase (start now s) = Running \<and>
   clicks ((handleClick ^^ n) (render (start now s))) = n \<and>
   clicks ((handleClick ^^ n) (start now s)) = (if rendered s then n else 0)"
proof -
  have shown: "rendered (render (start now s))"
    by (simp add: render_fields start_fields)
  have after: "clicks ((handleClick ^^ n) (render (start now s))) = n"
    using handleClick_funpow_shown [OF shown, of n] by (simp add: render_fields start_fields)
  have before: "clicks ((handleClick ^^ n) (start now s)) = (if rendered s then n else 0)"
  proof (cases "rendered s")
    case True
    then have "rendered (start now s)" by (simp add: start_fields)
    from handleClick_funpow_shown [OF this, of n] True show ?thesis
      by (simp add: start_fields)
  next
    case False
    then have "\<not> rendered (start now s)" by (simp add: start_fields)
    from handleClick_funpow_hidden [OF this, of n] False show ?thesis
      by (simp add: start_fields)
  qed
  show ?thesis using after before by (simp add: start_fields phase_def)
qed

theorem start_opens_fresh_session_witness:
  "clicks (run [Start 0, Render, Tap, Tap, Tick 1 6000, Render] initial) = 2 \<and>
   phase (run [Start 0, Render, Tap, Tap, Tick 1 6000, Render] initial) = Finished \<and>
   clicks (start 9000 (run [Start 0, Render, Tap, Tap, Tick 1 6000, Render] initial)) = 0 \<and>
   remaining (start 9000 (run [Start 0, Render, Tap, Tap, Tick 1 6000, Render] initial)) = 5000 \<and>
   endAtRef (start 9000 (run [Start 0, Render, Tap, Tap, Tick 1 6000, Render] initial)) = 14000 \<and>
   phase (start 9000 (run [Start 0, Render, Tap, Tap, Tick 1 6000, Render] initial)) = Running \<and>
   clicks ((handleClick ^^ 3)
     (render (start 9000 (run [Start 0, Render, Tap, Tap, Tick 1 6000, Render] initial)))) = 3 \<and>
   clicks ((handleClick ^^ 3)
     (start 9000 (run [Start 0, Render, Tap, Tap, Tick 1 6000, Render] initial))) = 0"
  using start_opens_fresh_session
    [of 9000 "run [Start 0, Render, Tap, Tap, Tick 1 6000, Render] initial" 3]
  by (simp add: eval_defs)

section \<open>The interval callback\<close>

text \<open>
  Claim C3. A tick that runs while \<^verbatim>\<open>running\<close> holds sets the countdown to
  \<open>left = max 0 (endAtRef - now)\<close>. If \<open>left \<le> 0\<close> the phase becomes Finished, \<^verbatim>\<open>timerRef\<close>
  is cleared and the handle it held leaves the table of live intervals. If \<open>0 < left\<close>
  the phase stays Running and nothing but the countdown changes, in particular neither
  the click counter nor the deadline. In a reachable state the finishing tick leaves no
  live interval at all, so no later tick event changes the state.
\<close>

theorem tick_while_running:
  "(running s \<longrightarrow>
      remaining (tick now s) = max 0 (endAtRef s - now) \<and>
      (max 0 (endAtRef s - now) \<le> 0 \<longrightarrow>
         phase (tick now s) = Finished \<and> timerRef (tick now s) = None \<and>
         (\<forall>h. timerRef s = Some h \<longrightarrow> h \<notin> set (intervals (tick now s)))) \<and>
      (0 < max 0 (endAtRef s - now) \<longrightarrow>
         phase (tick now s) = Running \<and> clicks (tick now s) = clicks s \<and>
         endAtRef (tick now s) = endAtRef s \<and>
         tick now s = s\<lparr> remaining := max 0 (endAtRef s - now) \<rparr>)) \<and>
   (running (run es initial) \<and> max 0 (endAtRef (run es initial) - now) \<le> 0 \<longrightarrow>
      intervals (tick now (run es initial)) = [] \<and>
      (\<forall>h t. step (Tick h t) (tick now (run es initial)) = tick now (run es initial)))"
proof -
  have local: "remaining (tick now s) = max 0 (endAtRef s - now)"
    by (simp add: tick_fields)
  have fin: "phase (tick now s) = Finished \<and> timerRef (tick now s) = None \<and>
      (\<forall>h. timerRef s = Some h \<longrightarrow> h \<notin> set (intervals (tick now s)))"
    if "max 0 (endAtRef s - now) \<le> 0"
    using that by (auto simp add: tick_def phase_def clearInterval_def Let_def split: option.splits)
  have go: "phase (tick now s) = Running \<and> clicks (tick now s) = clicks s \<and>
      endAtRef (tick now s) = endAtRef s \<and>
      tick now s = s\<lparr> remaining := max 0 (endAtRef s - now) \<rparr>"
    if "running s" "0 < max 0 (endAtRef s - now)"
  proof -
    from that(2) have "\<not> endAtRef s \<le> now" by simp
    with that(1) show ?thesis by (simp add: tick_def phase_def Let_def)
  qed
  have reach: "intervals (tick now r) = [] \<and> (\<forall>h t. step (Tick h t) (tick now r) = tick now r)"
    if "r = run es initial" "running r" "max 0 (endAtRef r - now) \<le> 0" for r
  proof -
    have "timer_inv r" using that(1) by (simp add: timer_inv_reachable)
    then have "intervals (tick now r) = []"
      using that(2,3)
      by (auto simp add: timer_inv_def tick_def clearInterval_def split: option.splits)
    then show ?thesis by simp
  qed
  show ?thesis using local fin go reach by blast
qed

theorem tick_while_running_witness:
  "running (run [Start 0, Render, Tap] initial) \<and>
   remaining (tick 2000 (run [Start 0, Render, Tap] initial)) = 3000 \<and>
   phase (tick 2000 (run [Start 0, Render, Tap] initial)) = Running \<and>
   clicks (tick 2000 (run [Start 0, Render, Tap] initial)) = 1 \<and>
   endAtRef (tick 2000 (run [Start 0, Render, Tap] initial)) = 5000 \<and>
   remaining (tick 5020 (run [Start 0, Render, Tap] initial)) = 0 \<and>
   phase (tick 5020 (run [Start 0, Render, Tap] initial)) = Finished \<and>
   timerRef (tick 5020 (run [Start 0, Render, Tap] initial)) = None \<and>
   intervals (tick 5020 (run [Start 0, Render, Tap] initial)) = []"
  using tick_while_running
      [of "run [Start 0, Render, Tap] initial" 2000 "[Start 0, Render, Tap]"]
    tick_while_running
      [of "run [Start 0, Render, Tap] initial" 5020 "[Start 0, Render, Tap]"]
  by (simp add: eval_defs)

section \<open>Taps\<close>




section \<open>Resetting\<close>

text \<open>
  Claim C5 as stated says that \<^verbatim>\<open>reset\<close> clears the deadline and returns the whole state
  to its initial value. \<^verbatim>\<open>reset\<close> has no assignment to \<^verbatim>\<open>endAtRef\<close>: after a start at
  clock reading 1000 and a reset, the deadline is still 6000, while it is 0 initially.
\<close>

theorem reset_keeps_endAtRef_counterexample:
  "endAtRef initial = 0 \<and> endAtRef (reset (start 1000 initial)) = 6000 \<and>
   reset (start 1000 initial) \<noteq> initial"
proof -
  have e: "endAtRef initial = 0" "endAtRef (reset (start 1000 initial)) = 6000"
    by (simp_all add: eval_defs)
  then have "endAtRef (reset (start 1000 initial)) \<noteq> endAtRef initial" by simp
  then have "reset (start 1000 initial) \<noteq> initial" by metis
  with e show ?thesis by simp
qed

text \<open>
  Claim C5, amended. From any state, whatever its phase, \<^verbatim>\<open>reset\<close> leaves the phase Idle,
  the click counter at 0, the countdown at \<^verbatim>\<open>DURATION_MS\<close> and \<^verbatim>\<open>timerRef\<close> empty, removes
  the handle \<^verbatim>\<open>timerRef\<close> held from the table of live intervals, and leaves the deadline
  \<^verbatim>\<open>endAtRef\<close> as it was. From a reachable state the result is the initial state except
  for the deadline, the runtime's count of handles handed out and what the last render
  saw; after the next render it is the initial state except for the first two.
\<close>

theorem reset_effect:
  "phase (reset s) = Idle \<and> \<not> running (reset s) \<and> clicks (reset s) = 0 \<and>
   remaining (reset s) = DURATION_MS \<and> timerRef (reset s) = None \<and>
   (\<forall>h. timerRef s = Some h \<longrightarrow> h \<notin> set (intervals (reset s))) \<and>
   endAtRef (reset s) = endAtRef s \<and>
   reset (run es initial) =
     initial\<lparr> endAtRef := endAtRef (run es initial), nextTimer := nextTimer (run es initial),
              rendered := rendered (run es initial) \<rparr> \<and>
   render (reset (run es initial)) =
     initial\<lparr> endAtRef := endAtRef (run es initial), nextTimer := nextTimer (run es initial) \<rparr>"
proof -
  have idle: "phase (reset s) = Idle"
    by (simp add: phase_def reset_fields) (simp add: DURATION_MS_def)
  have gone: "\<forall>h. timerRef s = Some h \<longrightarrow> h \<notin> set (intervals (reset s))"
    by (simp add: reset_def clearInterval_def)
  have "timer_inv (run es initial)" by (rule timer_inv_reachable)
  then have empty: "intervals (reset (run es initial)) = []"
    by (auto simp add: timer_inv_def reset_def clearInterval_def split: option.splits)
  then have same: "reset (run es initial) =
     initial\<lparr> endAtRef := endAtRef (run es initial), nextTimer := nextTimer (run es initial),
              rendered := rendered (run es initial) \<rparr>"
    by (simp add: reset_fields initial_def tester.equality)
  from empty have shown: "render (reset (run es initial)) =
     initial\<lparr> endAtRef := endAtRef (run es initial), nextTimer := nextTimer (run es initial) \<rparr>"
    by (simp add: reset_fields render_fields initial_def tester.equality)
  show ?thesis using idle gone same shown by (simp add: reset_fields)
qed

theorem reset_effect_witness:
  "timerRef (run [Start 1000, Render, Tap, Tap] initial) = Some 1 \<and>
   phase (run [Start 1000, Render, Tap, Tap] initial) = Running \<and>
   clicks (run [Start 1000, Render, Tap, Tap] initial) = 2 \<and>
   phase (reset (run [Start 1000, Render, Tap, Tap] initial)) = Idle \<and>
   clicks (reset (run [Start 1000, Render, Tap, Tap] initial)) = 0 \<and>
   remaining (reset (run [Start 1000, Render, Tap, Tap] initial)) = 5000 \<and>
   timerRef (reset (run [Start 1000, Render, Tap, Tap] initial)) = None \<and>
   1 \<notin> set (intervals (reset (run [Start 1000, Render, Tap, Tap] initial))) \<and>
   endAtRef (reset (run [Start 1000, Render, Tap, Tap] initial)) = 6000 \<and>
   render (reset (run [Start 1000, Render, Tap, Tap] initial)) =
     initial\<lparr> endAtRef := 6000, nextTimer := 2 \<rparr>"
  using reset_effect
    [of "run [Start 1000, Render, Tap, Tap] initial" "[Start 1000, Render, Tap, Tap]"]
  by (simp add: eval_defs)

section \<open>Who changes the click counter\<close>




section \<open>How a session finishes\<close>

text \<open>
  Claim C7. If an event takes the phase from Running to Finished, the event is a tick of
  a live interval that computes \<open>left \<le> 0\<close>. \<^verbatim>\<open>start\<close> and \<^verbatim>\<open>reset\<close> never end in phase
  Finished and \<^verbatim>\<open>handleClick\<close> keeps the phase. In a reachable state that is not
  Finished, an event, a render included, can lead to Finished only from Running.
\<close>

theorem finished_only_by_expired_tick:
  "(phase s = Running \<and> phase (step e s) = Finished \<longrightarrow>
      (\<exists>h now. e = Tick h now \<and> h \<in> set (intervals s) \<and> max 0 (endAtRef s - now) \<le> 0)) \<and>
   phase (start now s) \<noteq> Finished \<and> phase (reset s) \<noteq> Finished \<and>
   phase (handleClick s) = phase s \<and>
   (phase (run es initial) \<noteq> Finished \<and> phase (step e (run es initial)) = Finished \<longrightarrow>
      phase (run es initial) = Running)"
proof -
  have only: "phase s = Running \<and> phase (step e s) = Finished \<longrightarrow>
      (\<exists>h now. e = Tick h now \<and> h \<in> set (intervals s) \<and> max 0 (endAtRef s - now) \<le> 0)"
  proof (cases e)
    case (Tick h now)
    then show ?thesis
      by (auto simp add: phase_def tick_fields split: if_splits)
  qed (auto simp add: phase_def start_fields reset_fields render_fields handleClick_def
         DURATION_MS_def split: if_splits)
  have others: "phase (start now s) \<noteq> Finished" "phase (reset s) \<noteq> Finished"
    "phase (handleClick s) = phase s"
    by (simp_all add: phase_def start_fields reset_fields handleClick_def DURATION_MS_def)
  have "phase r = Running" if "timer_inv r" "phase r \<noteq> Finished" "phase (step e r) = Finished" for r
  proof (cases e)
    case (Tick h now)
    show ?thesis
    proof (cases "h \<in> set (intervals r)")
      case True
      then have "running r" using that(1) by (rule timer_inv_live [rotated])
      then show ?thesis by (simp add: phase_def)
    next
      case False
      then show ?thesis using that(2,3) Tick by simp
    qed
  next
    case (Start now')
    then show ?thesis using that(3) by (simp add: phase_def start_fields)
  next
    case Tap
    then show ?thesis using that(2,3) by (simp add: phase_def handleClick_def split: if_splits)
  next
    case Reset
    then show ?thesis using that(3) by (simp add: phase_def reset_fields DURATION_MS_def)
  next
    case Render
    then show ?thesis using that(2,3)
      by (auto simp add: phase_def render_fields split: if_splits)
  qed
  then have reach: "phase (run es initial) \<noteq> Finished \<and> phase (step e (run es initial)) = Finished \<longrightarrow>
      phase (run es initial) = Running"
    using timer_inv_reachable by blast
  show ?thesis using only others reach by blast
qed

theorem finished_only_by_expired_tick_witness:
  "phase (run [Start 0, Render, Tap] initial) = Running \<and>
   phase (step (Tick 1 5000) (run [Start 0, Render, Tap] initial)) = Finished \<and>
   1 \<in> set (intervals (run [Start 0, Render, Tap] initial)) \<and>
   max 0 (endAtRef (run [Start 0, Render, Tap] initial) - 5000) \<le> 0 \<and>
   phase (start 7 (run [Start 0, Render, Tap] initial)) = Running \<and>
   phase (reset (run [Start 0, Render, Tap] initial)) = Idle \<and>
   phase (handleClick (run [Start 0, Render, Tap] initial)) = Running"
  using finished_only_by_expired_tick
    [of "run [Start 0, Render, Tap] initial" "Tick 1 5000" 7 "[Start 0, Render, Tap]"]
  by (simp add: eval_defs)

section \<open>One interval at a time\<close>

text \<open>
  Claim C8. After every sequence of events from the initial state the table of live
  intervals holds at most one handle. On such a state \<^verbatim>\<open>start\<close> leaves exactly the newly
  armed handle, the one held before being cancelled; \<^verbatim>\<open>reset\<close> leaves none; and the
  tick that finishes the session leaves none.
\<close>

theorem at_most_one_interval:
  "length (intervals (run es initial)) \<le> 1 \<and>
   intervals (start now (run es initial)) = [nextTimer (run es initial)] \<and>
   (\<forall>h. timerRef (run es initial) = Some h \<longrightarrow>
      h \<notin> set (intervals (start now (run es initial)))) \<and>
   intervals (reset (run es initial)) = [] \<and>
   (running (run es initial) \<and> max 0 (endAtRef (run es initial) - now) \<le> 0 \<longrightarrow>
      intervals (tick now (run es initial)) = [])"
proof -
  define r where "r = run es initial"
  have inv: "timer_inv r" unfolding r_def by (rule timer_inv_reachable)
  then have one: "length (intervals r) \<le> 1"
    by (simp add: timer_inv_def split: option.splits)
  from inv have st: "intervals (start now r) = [nextTimer r]"
    by (auto simp add: timer_inv_def start_def setInterval_def clearInterval_def
          split: option.splits)
  from inv have old: "\<forall>h. timerRef r = Some h \<longrightarrow> h \<notin> set (intervals (start now r))"
    unfolding st by (auto simp add: timer_inv_def)
  from inv have rs: "intervals (reset r) = []"
    by (auto simp add: timer_inv_def reset_def clearInterval_def split: option.splits)
  from inv have tk: "running r \<and> max 0 (endAtRef r - now) \<le> 0 \<longrightarrow> intervals (tick now r) = []"
    by (auto simp add: timer_inv_def tick_def clearInterval_def Let_def split: option.splits)
  show ?thesis using one st old rs tk unfolding r_def by blast
qed

theorem at_most_one_interval_witness:
  "intervals (run [Start 0, Render, Tap, Start 100, Start 200] initial) = [3] \<and>
   timerRef (run [Start 0, Render, Tap, Start 100, Start 200] initial) = Some 3 \<and>
   intervals (start 300 (run [Start 0, Render, Tap, Start 100, Start 200] initial)) = [4] \<and>
   intervals (reset (run [Start 0, Render, Tap, Start 100, Start 200] initial)) = [] \<and>
   running (run [Start 0, Render, Tap, Start 100, Start 200] initial) \<and>
   intervals (tick 5200 (run [Start 0, Render, Tap, Start 100, Start 200] initial)) = []"
  using at_most_one_interval [of "[Start 0, Render, Tap, Start 100, Start 200]" 300]
    at_most_one_interval [of "[Start 0, Render, Tap, Start 100, Start 200]" 5200]
  by (simp add: eval_defs)

section \<open>The rate\<close>

text \<open>
  Claim C9. The rate is the click counter divided by \<^verbatim>\<open>DURATION_MS / 1000\<close>, that is by 5.
  It does not depend on the countdown, the deadline or the running flag, so not on the
  time elapsed. The summary line carrying it is rendered exactly in phase Finished, and
  then shows the click counter and the counter divided by 5.
\<close>

theorem cps_over_fixed_window:
  "cps s = real (clicks s) / 5 \<and>
   cps (s\<lparr> remaining := r, endAtRef := e, running := b \<rparr>) = cps s \<and>
   ((summary s \<noteq> None) = (phase s = Finished)) \<and>
   (phase s = Finished \<longrightarrow> summary s = Some (clicks s, real (clicks s) / 5))"
proof -
  have rate: "cps s = real (clicks s) / 5" for s
    by (simp add: cps_def DURATION_MS_def)
  have indep: "cps (s\<lparr> remaining := r, endAtRef := e, running := b \<rparr>) = cps s"
    by (simp add: cps_def)
  have shown: "(summary s \<noteq> None) = (phase s = Finished)"
    by (simp add: summary_def phase_def)
  have "phase s = Finished \<longrightarrow> summary s = Some (clicks s, real (clicks s) / 5)"
    by (simp add: summary_def phase_def rate split: if_splits)
  then show ?thesis using rate [of s] indep shown by blast
qed

theorem cps_over_fixed_window_witness:
  "phase (run [Start 0, Render, Tap, Tap, Tap, Tick 1 2500] initial) = Running \<and>
   summary (run [Start 0, Render, Tap, Tap, Tap, Tick 1 2500] initial) = None \<and>
   phase (run [Start 0, Render, Tap, Tap, Tap, Tick 1 2500, Tick 1 5001] initial) = Finished \<and>
   cps (run [Start 0, Render, Tap, Tap, Tap, Tick 1 2500, Tick 1 5001] initial) = 3 / 5 \<and>
   summary (run [Start 0, Render, Tap, Tap, Tap, Tick 1 2500, Tick 1 5001] initial) =
     Some (3, 3 / 5)"
  using cps_over_fixed_window
      [of "run [Start 0, Render, Tap, Tap, Tap, Tick 1 2500] initial"]
    cps_over_fixed_window
      [of "run [Start 0, Render, Tap, Tap, Tap, Tick 1 2500, Tick 1 5001] initial"]
  by (simp add: eval_defs)

section \<open>Idle and Finished are told apart by the countdown\<close>

text \<open>
  Claim C10. In every reachable state that is not running, the countdown is exactly 0 or
  exactly \<^verbatim>\<open>DURATION_MS\<close>. The condition of the summary line,
  \<^verbatim>\<open>!running && remaining === 0\<close>, is false in the initial state and after every reset.
  So in a reachable state Idle is the stored pair (not running, \<^verbatim>\<open>DURATION_MS\<close>) and
  Finished is the stored pair (not running, 0).
\<close>

theorem stopped_countdown_is_full_or_empty:
  "(\<not> running (run es initial) \<longrightarrow>
      remaining (run es initial) = 0 \<or> remaining (run es initial) = DURATION_MS) \<and>
   \<not> finished initial \<and> \<not> finished (reset s) \<and>
   ((phase (run es initial) = Idle) =
      (\<not> running (run es initial) \<and> remaining (run es initial) = DURATION_MS)) \<and>
   ((phase (run es initial) = Finished) = finished (run es initial))"
proof -
  have "timer_inv (run es initial)" by (rule timer_inv_reachable)
  then have two: "\<not> running (run es initial) \<longrightarrow>
      remaining (run es initial) = 0 \<or> remaining (run es initial) = DURATION_MS"
    by (auto simp add: timer_inv_def)
  have fresh: "\<not> finished initial" "\<not> finished (reset s)"
    by (simp_all add: finished_def reset_fields) (simp_all add: initial_def DURATION_MS_def)
  have ph: "(phase (run es initial) = Finished) = finished (run es initial)"
    by (simp add: phase_def finished_def)
  have "(phase (run es initial) = Idle) =
      (\<not> running (run es initial) \<and> remaining (run es initial) = DURATION_MS)"
    using two by (auto simp add: phase_def DURATION_MS_def)
  then show ?thesis using two fresh ph by blast
qed

theorem stopped_countdown_is_full_or_empty_witness:
  "\<not> running (run [Start 0, Render, Tick 1 1234, Tap, Tick 1 6000] initial) \<and>
   remaining (run [Start 0, Render, Tick 1 1234, Tap, Tick 1 6000] initial) = 0 \<and>
   finished (run [Start 0, Render, Tick 1 1234, Tap, Tick 1 6000] initial) \<and>
   \<not> finished (reset (run [Start 0, Render, Tick 1 1234, Tap, Tick 1 6000] initial)) \<and>
   \<not> running (run [Start 0, Render, Tick 1 1234, Tap, Reset] initial) \<and>
   remaining (run [Start 0, Render, Tick 1 1234, Tap, Reset] initial) = 5000 \<and>
   phase (run [Start 0, Render, Tick 1 1234, Tap, Reset] initial) = Idle"
  using stopped_countdown_is_full_or_empty
      [of "[Start 0, Render, Tick 1 1234, Tap, Tick 1 6000]"
          "run [Start 0, Render, Tick 1 1234, Tap, Tick 1 6000] initial"]
    stopped_countdown_is_full_or_empty [of "[Start 0, Render, Tick 1 1234, Tap, Reset]" initial]
  by (simp add: eval_defs)

end
